theory Spec2Isabelle
  imports Complex_Main
begin

section \<open>The cloth simulation: point masses, constraints and the curtain\<close>

text \<open>
  The source is a single Python module. Its numbers are Python ints and floats; the
  embedding idealises every coordinate, distance and stiffness as a \<^typ>\<open>real\<close>
  (rounding and overflow of IEEE doubles are not modelled), and keeps the lattice
  counts of the curtain as \<^typ>\<open>int\<close>.

  Point masses refer to each other through their \<open>connections\<close> lists, and
  \<open>solve_constraints\<close> mutates both ends of a connection. The embedding therefore
  keeps all point masses in one store, a list, and a connection names the other
  point by its index in that store. For a curtain the store is \<open>self.points\<close>
  itself, the index being the position in creation order.
\<close>

subsection \<open>Constants\<close>

definition STIFFNESS :: real where
  "STIFFNESS = 0.5"

definition MOUSE_INFLUENCE_SIZE :: real where
  "MOUSE_INFLUENCE_SIZE = 20"

definition MOUSE_TEAR_SIZE :: real where
  "MOUSE_TEAR_SIZE = 8"

definition GRAVITY :: real where
  "GRAVITY = 9.8"

subsection \<open>PointMass\<close>

text \<open>
  A connection is the tuple \<open>(other, resting_distance, stiffness)\<close> that
  \<open>attach_to\<close> appends; \<open>other\<close> is a store index.
\<close>

type_synonym connection = "nat \<times> real \<times> real"

record PointMass =
  x :: real
  y :: real
  prev_x :: real
  prev_y :: real
  fixed :: bool
  connections :: "connection list"

text \<open>\<open>PointMass.__init__\<close>: the previous position starts at the position.\<close>

definition PointMass_init :: "real \<Rightarrow> real \<Rightarrow> bool \<Rightarrow> PointMass" where
  "PointMass_init x0 y0 fixed0 =
     \<lparr>x = x0, y = y0, prev_x = x0, prev_y = y0, fixed = fixed0, connections = []\<rparr>"

text \<open>\<open>PointMass.update\<close>: Verlet integration; it touches the point alone.\<close>

definition PointMass_update :: "real \<Rightarrow> PointMass \<Rightarrow> PointMass" where
  "PointMass_update dt p =
     (if \<not> fixed p then
        let velocity_x = x p - prev_x p;
            velocity_y = y p - prev_y p
        in p\<lparr>prev_x := x p, prev_y := y p,
             x := x p + velocity_x,
             y := y p + (velocity_y + GRAVITY * dt * dt)\<rparr>
      else p)"

text \<open>\<open>PointMass.apply_constraint\<close>: no test of \<open>fixed\<close> in the source.\<close>

definition PointMass_apply_constraint :: "real \<Rightarrow> real \<Rightarrow> PointMass \<Rightarrow> PointMass" where
  "PointMass_apply_constraint width0 height0 p =
     p\<lparr>x := max 0 (min width0 (x p)), y := max 0 (min height0 (y p))\<rparr>"

text \<open>\<open>PointMass.attach_to\<close>, for the point at index \<open>self\<close> of the store.\<close>

definition PointMass_attach_to ::
  "nat \<Rightarrow> nat \<Rightarrow> real \<Rightarrow> real \<Rightarrow> PointMass list \<Rightarrow> PointMass list" where
  "PointMass_attach_to self other resting_distance0 stiffness ps =
     ps[self := (ps ! self)\<lparr>connections :=
          connections (ps ! self) @ [(other, resting_distance0, stiffness)]\<rparr>]"

text \<open>
  The body of the loop of \<open>PointMass.solve_constraints\<close> for one connection.
  The source reads \<open>other.fixed\<close> and \<open>other.x\<close> after it has written
  \<open>self.x\<close>, so the second update reads the store \<open>ps1\<close>.
\<close>

definition solve_connection :: "nat \<Rightarrow> connection \<Rightarrow> PointMass list \<Rightarrow> PointMass list" where
  "solve_connection self c ps =
     (case c of (other, resting_distance0, stiffness) \<Rightarrow>
        let dx = x (ps ! other) - x (ps ! self);
            dy = y (ps ! other) - y (ps ! self);
            distance = sqrt (dx\<^sup>2 + dy\<^sup>2)
        in if distance = 0 then ps
           else
             let error = (resting_distance0 - distance) / distance;
                 correction = error * 0.5 * stiffness;
                 ps1 = (if \<not> fixed (ps ! self)
                        then ps[self := (ps ! self)\<lparr>x := x (ps ! self) - correction * dx,
                                                    y := y (ps ! self) - correction * dy\<rparr>]
                        else ps);
                 ps2 = (if \<not> fixed (ps1 ! other)
                        then ps1[other := (ps1 ! other)\<lparr>x := x (ps1 ! other) + correction * dx,
                                                       y := y (ps1 ! other) + correction * dy\<rparr>]
                        else ps1)
             in ps2)"

text \<open>
  \<open>PointMass.solve_constraints\<close>: the loop runs over \<open>self.connections\<close>, which
  the body never changes, threading the store through the connections in order.
\<close>

definition PointMass_solve_constraints :: "nat \<Rightarrow> PointMass list \<Rightarrow> PointMass list" where
  "PointMass_solve_constraints self ps = fold (solve_connection self) (connections (ps ! self)) ps"

subsection \<open>Python lists: negative indices and loops that may raise\<close>

datatype py_error = IndexError

text \<open>
  The position that the subscript \<open>i\<close> selects in a list of \<open>n\<close> elements: a
  negative subscript counts from the end, and a subscript outside the list raises.
\<close>

definition py_index :: "nat \<Rightarrow> int \<Rightarrow> py_error + nat" where
  "py_index n i =
     (if i < 0
      then (if 0 \<le> int n + i then Inr (nat (int n + i)) else Inl IndexError)
      else (if i < int n then Inr (nat i) else Inl IndexError))"

text \<open>A \<open>for\<close> loop whose body may raise: the first error ends the loop.\<close>

fun for_each :: "'a list \<Rightarrow> ('a \<Rightarrow> 's \<Rightarrow> py_error + 's) \<Rightarrow> 's \<Rightarrow> py_error + 's" where
  "for_each [] body s = Inr s"
| "for_each (a # as) body s =
     (case body a s of Inl e \<Rightarrow> Inl e | Inr s' \<Rightarrow> for_each as body s')"

text \<open>
  \<open>for point in self.points: point.m(...)\<close> for a method \<open>m\<close> that touches the
  point alone: the points are visited by index, in list order, each rewritten in place.
\<close>

definition for_each_point :: "(PointMass \<Rightarrow> PointMass) \<Rightarrow> PointMass list \<Rightarrow> PointMass list" where
  "for_each_point m ps = fold (\<lambda>i qs. qs[i := m (qs ! i)]) [0..<length ps] ps"

subsection \<open>Curtain\<close>

record Curtain =
  points :: "PointMass list"
  width :: int
  height :: int
  resting_distance :: real

text \<open>
  The body of the inner loop of \<open>Curtain.create_points\<close>, for the lattice
  position \<open>(col, row)\<close> (the source's loop variables \<open>x\<close> and \<open>y\<close>). The new
  point is appended first, so it sits at index \<open>length ps\<close>, and
  \<open>self.points[-2]\<close> and \<open>self.points[-(self.width + 2)]\<close> are read from the
  list that already holds it.
\<close>

definition create_point ::
  "int \<Rightarrow> real \<Rightarrow> real \<Rightarrow> int \<Rightarrow> int \<Rightarrow> PointMass list \<Rightarrow> py_error + PointMass list" where
  "create_point w rd start_y row col ps =
     (let pos_x = of_int col * rd;
          pos_y = start_y + of_int row * rd;
          fixed0 = (row = 0);
          point = length ps;
          ps1 = ps @ [PointMass_init pos_x pos_y fixed0]
      in case (if col > 0
               then (case py_index (length ps1) (- 2) of
                       Inl e \<Rightarrow> Inl e
                     | Inr left_point \<Rightarrow> Inr (PointMass_attach_to point left_point rd STIFFNESS ps1))
               else Inr ps1) of
           Inl e \<Rightarrow> Inl e
         | Inr ps2 \<Rightarrow>
             (if row > 0
              then (case py_index (length ps2) (- (w + 2)) of
                      Inl e \<Rightarrow> Inl e
                    | Inr top_point \<Rightarrow> Inr (PointMass_attach_to point top_point rd STIFFNESS ps2))
              else Inr ps2))"

text \<open>
  \<open>Curtain.create_points\<close>: \<open>range(self.height + 1)\<close> is the list
  \<open>[0..height]\<close>, empty when \<open>height < 0\<close>; likewise for the columns.
\<close>

definition Curtain_create_points :: "real \<Rightarrow> Curtain \<Rightarrow> py_error + Curtain" where
  "Curtain_create_points start_y c =
     (case for_each [0..height c]
             (\<lambda>row. for_each [0..width c]
                (\<lambda>col. create_point (width c) (resting_distance c) start_y row col))
             (points c) of
        Inl e \<Rightarrow> Inl e
      | Inr ps \<Rightarrow> Inr (c\<lparr>points := ps\<rparr>))"

text \<open>\<open>Curtain.__init__\<close>: no argument is checked before the points are created.\<close>

definition Curtain_init :: "int \<Rightarrow> int \<Rightarrow> real \<Rightarrow> real \<Rightarrow> py_error + Curtain" where
  "Curtain_init width0 height0 start_y resting_distance0 =
     Curtain_create_points start_y
       \<lparr>points = [], width = width0, height = height0, resting_distance = resting_distance0\<rparr>"

text \<open>One pass of the inner loop of \<open>Curtain.update\<close> over all points.\<close>

definition solve_all :: "PointMass list \<Rightarrow> PointMass list" where
  "solve_all ps = fold PointMass_solve_constraints [0..<length ps] ps"

text \<open>\<open>Curtain.update\<close>: the loop over \<open>range(5)\<close> ignores its variable.\<close>

definition Curtain_update :: "real \<Rightarrow> Curtain \<Rightarrow> Curtain" where
  "Curtain_update dt c =
     (let ps1 = for_each_point (PointMass_update dt) (points c);
          ps2 = fold (\<lambda>_. solve_all) [0..<5] ps1
      in c\<lparr>points := ps2\<rparr>)"

text \<open>\<open>Curtain.apply_constraints\<close>.\<close>

definition Curtain_apply_constraints :: "real \<Rightarrow> real \<Rightarrow> Curtain \<Rightarrow> Curtain" where
  "Curtain_apply_constraints screen_width screen_height c =
     c\<lparr>points := for_each_point (PointMass_apply_constraint screen_width screen_height) (points c)\<rparr>"

text \<open>
  The body of the loop of \<open>Curtain.interact_with_mouse\<close>. The squared distance is
  computed once, before the drag; the tear test reuses it after the point may have
  been moved.
\<close>

definition interact_point :: "real \<times> real \<Rightarrow> bool \<Rightarrow> bool \<Rightarrow> PointMass \<Rightarrow> PointMass" where
  "interact_point mouse_pos left_click right_click point =
     (let dx = x point - fst mouse_pos;
          dy = y point - snd mouse_pos;
          distance = dx\<^sup>2 + dy\<^sup>2;
          point1 = (if left_click \<and> distance < MOUSE_INFLUENCE_SIZE\<^sup>2
                    then (if \<not> fixed point
                          then point\<lparr>x := fst mouse_pos, y := snd mouse_pos\<rparr>
                          else point)
                    else point);
          point2 = (if right_click \<and> distance < MOUSE_TEAR_SIZE\<^sup>2
                    then point1\<lparr>connections := []\<rparr>
                    else point1)
      in point2)"

definition Curtain_interact_with_mouse :: "real \<times> real \<Rightarrow> bool \<Rightarrow> bool \<Rightarrow> Curtain \<Rightarrow> Curtain" where
  "Curtain_interact_with_mouse mouse_pos left_click right_click c =
     c\<lparr>points := for_each_point (interact_point mouse_pos left_click right_click) (points c)\<rparr>"

subsection \<open>Reference definitions that follow the specification's wording\<close>

text \<open>Clamping a value into the interval \<open>[lo, hi]\<close>.\<close>

definition clamp :: "real \<Rightarrow> real \<Rightarrow> real \<Rightarrow> real" where
  "clamp lo hi v = (if v < lo then lo else if hi < v then hi else v)"

text \<open>The Euclidean distance between the points at two indices of a store.\<close>

definition point_distance :: "PointMass list \<Rightarrow> nat \<Rightarrow> nat \<Rightarrow> real" where
  "point_distance ps i j = sqrt ((x (ps ! j) - x (ps ! i))\<^sup>2 + (y (ps ! j) - y (ps ! i))\<^sup>2)"

text \<open>
  Row-major order: the index of lattice position \<open>(col, row)\<close> in a grid whose
  rows hold \<open>w + 1\<close> points.
\<close>

definition lattice_index :: "int \<Rightarrow> int \<Rightarrow> int \<Rightarrow> nat" where
  "lattice_index w row col = nat (row * (w + 1) + col)"

text \<open>
  The point the grid is to hold at \<open>(col, row)\<close>: placed on the lattice, at rest,
  fixed in row 0, linked to its left neighbour (if any) and then to the point above
  (if any).
\<close>

definition grid_point :: "int \<Rightarrow> real \<Rightarrow> real \<Rightarrow> int \<Rightarrow> int \<Rightarrow> PointMass" where
  "grid_point w rd start_y row col =
     \<lparr>x = of_int col * rd, y = start_y + of_int row * rd,
      prev_x = of_int col * rd, prev_y = start_y + of_int row * rd,
      fixed = (row = 0),
      connections =
        (if col > 0 then [(lattice_index w row (col - 1), rd, STIFFNESS)] else []) @
        (if row > 0 then [(lattice_index w (row - 1) col, rd, STIFFNESS)] else [])\<rparr>"

text \<open>The first \<open>n\<close> grid points in row-major order.\<close>

definition lattice :: "int \<Rightarrow> real \<Rightarrow> real \<Rightarrow> nat \<Rightarrow> PointMass list" where
  "lattice w rd start_y n =
     map (\<lambda>i. grid_point w rd start_y (int (i div nat (w + 1))) (int (i mod nat (w + 1))))
       [0..<n]"

text \<open>
  The two phases of the grid update as the specification words them: every point
  integrated once, each from its own state; and a relaxation pass that visits the
  points one after the other, from index \<open>i\<close> on, \<open>n\<close> points to go.
\<close>

definition integrate_all :: "real \<Rightarrow> PointMass list \<Rightarrow> PointMass list" where
  "integrate_all dt ps = map (PointMass_update dt) ps"

fun relax_from :: "nat \<Rightarrow> nat \<Rightarrow> PointMass list \<Rightarrow> PointMass list" where
  "relax_from 0 i ps = ps"
| "relax_from (Suc n) i ps = relax_from n (Suc i) (PointMass_solve_constraints i ps)"

definition relaxation_pass :: "PointMass list \<Rightarrow> PointMass list" where
  "relaxation_pass ps = relax_from (length ps) 0 ps"

section \<open>Properties\<close>

subsection \<open>Loops over the points\<close>

lemma for_each_point_prefix:
  "k \<le> length ps \<Longrightarrow>
   fold (\<lambda>i qs. qs[i := m (qs ! i)]) [0..<k] ps = map m (take k ps) @ drop k ps"
proof (induction k)
  case 0
  then show ?case by simp
next
  case (Suc k)
  then have k: "k < length ps" by simp
  have "fold (\<lambda>i qs. qs[i := m (qs ! i)]) [0..<Suc k] ps
        = (map m (take k ps) @ drop k ps)[k := m ((map m (take k ps) @ drop k ps) ! k)]"
    using Suc by simp
  also have "(map m (take k ps) @ drop k ps) ! k = ps ! k"
    using k by (simp add: nth_append)
  also have "(map m (take k ps) @ drop k ps)[k := m (ps ! k)]
        = map m (take k ps) @ (drop k ps)[0 := m (ps ! k)]"
    using k by (simp add: list_update_append)
  also have "(drop k ps)[0 := m (ps ! k)] = m (ps ! k) # drop (Suc k) ps"
    using k by (simp add: Cons_nth_drop_Suc [symmetric])
  also have "map m (take k ps) @ m (ps ! k) # drop (Suc k) ps
        = map m (take (Suc k) ps) @ drop (Suc k) ps"
    using k by (simp add: take_Suc_conv_app_nth)
  finally show ?case .
qed

text \<open>A method that touches the point alone acts on the list as \<open>map\<close>.\<close>

lemma for_each_point_map: "for_each_point m ps = map m ps"
  by (simp add: for_each_point_def for_each_point_prefix)

lemma nth_for_each_point:
  "i < length ps \<Longrightarrow> for_each_point m ps ! i = m (ps ! i)"
  by (simp add: for_each_point_map)

lemma length_for_each_point [simp]: "length (for_each_point m ps) = length ps"
  by (simp add: for_each_point_map)

lemma nth_update_any:
  "ps[i := v] ! k = (if i = k \<and> i < length ps then v else ps ! k)"
  by (cases "i < length ps") (auto simp add: nth_list_update list_update_beyond)

subsection \<open>Integration\<close>

text \<open>
  C2. For a point that is not fixed, \<open>update\<close> takes the velocity as position minus
  previous position, stores the old position as the previous one and advances the
  position by the velocity plus \<open>(0, GRAVITY * dt * dt)\<close>. From rest
  (previous position equal to position) and with \<open>dt = 0.1\<close>, \<open>y\<close> grows by
  \<open>0.098\<close> and \<open>x\<close> stays.
\<close>

theorem update_verlet_step:
  assumes "\<not> fixed p"
  shows "prev_x (PointMass_update dt p) = x p \<and>
         prev_y (PointMass_update dt p) = y p \<and>
         x (PointMass_update dt p) = x p + (x p - prev_x p) \<and>
         y (PointMass_update dt p) = y p + ((y p - prev_y p) + GRAVITY * dt * dt) \<and>
         GRAVITY = 9.8 \<and>
         (prev_x p = x p \<and> prev_y p = y p \<longrightarrow>
            x (PointMass_update 0.1 p) = x p \<and>
            y (PointMass_update 0.1 p) = y p + 0.098)"
  using assms by (simp add: PointMass_update_def Let_def GRAVITY_def)

theorem update_verlet_step_witness:
  "\<not> fixed (PointMass_init 20 10 False) \<and>
   prev_x (PointMass_init 20 10 False) = x (PointMass_init 20 10 False) \<and>
   prev_y (PointMass_init 20 10 False) = y (PointMass_init 20 10 False) \<and>
   x (PointMass_update 0.1 (PointMass_init 20 10 False)) = 20 \<and>
   y (PointMass_update 0.1 (PointMass_init 20 10 False)) = 10.098"
  using update_verlet_step [of "PointMass_init 20 10 False" "0.1"]
  by (simp add: PointMass_init_def)

subsection \<open>Boundary clamping\<close>

text \<open>
  C6. \<open>apply_constraint\<close> sets \<open>x\<close> to the clamp of \<open>x\<close> into \<open>[0, width]\<close> and
  \<open>y\<close> to the clamp of \<open>y\<close> into \<open>[0, height]\<close>, whatever the value of
  \<open>fixed\<close>; \<open>Curtain.apply_constraints\<close> does so for every point of the curtain.
\<close>

theorem apply_constraint_clamps:
  assumes "0 \<le> screen_width" and "0 \<le> screen_height" and "i < length (points c)"
  shows "x (PointMass_apply_constraint screen_width screen_height p)
           = clamp 0 screen_width (x p) \<and>
         y (PointMass_apply_constraint screen_width screen_height p)
           = clamp 0 screen_height (y p) \<and>
         x (points (Curtain_apply_constraints screen_width screen_height c) ! i)
           = clamp 0 screen_width (x (points c ! i)) \<and>
         y (points (Curtain_apply_constraints screen_width screen_height c) ! i)
           = clamp 0 screen_height (y (points c ! i))"
  using assms
  by (simp add: Curtain_apply_constraints_def nth_for_each_point
      PointMass_apply_constraint_def clamp_def)

text \<open>A fixed point left of the screen is moved onto its edge.\<close>

theorem apply_constraint_clamps_witness:
  "(0::real) \<le> 640 \<and> (0::real) \<le> 480 \<and>
   fixed (PointMass_init (- 5) 500 True) \<and>
   x (points (Curtain_apply_constraints 640 480
        \<lparr>points = [PointMass_init (- 5) 500 True], width = 0, height = 0,
         resting_distance = 10\<rparr>) ! 0) = 0 \<and>
   y (points (Curtain_apply_constraints 640 480
        \<lparr>points = [PointMass_init (- 5) 500 True], width = 0, height = 0,
         resting_distance = 10\<rparr>) ! 0) = 480"
  using apply_constraint_clamps [of 640 480 0
      "\<lparr>points = [PointMass_init (- 5) 500 True], width = 0, height = 0,
        resting_distance = 10\<rparr>"]
  by (simp add: PointMass_init_def clamp_def)

subsection \<open>Pointer interaction\<close>

text \<open>
  C7. \<open>interact_with_mouse\<close> treats each point on its own. With \<open>d\<close> the squared
  distance from the point to the pointer: the point is put on the pointer exactly
  when the left button is down, \<open>d\<close> is below the square of the drag radius and the
  point is not fixed; its connections are emptied exactly when the right button is
  down and \<open>d\<close> is below the square of the tear radius, fixed or not. Both happen
  in one call for a free point inside both radii with both buttons down: the tear
  test comes second and uses the distance measured before the move.
\<close>

theorem interact_with_mouse_point:
  assumes "i < length (points c)"
  shows "let p = points c ! i;
             q = points (Curtain_interact_with_mouse (mx, my) left_click right_click c) ! i;
             d = (x p - mx)\<^sup>2 + (y p - my)\<^sup>2
         in (x q, y q) = (if left_click \<and> d < MOUSE_INFLUENCE_SIZE\<^sup>2 \<and> \<not> fixed p
                          then (mx, my) else (x p, y p)) \<and>
            connections q = (if right_click \<and> d < MOUSE_TEAR_SIZE\<^sup>2
                             then [] else connections p) \<and>
            fixed q = fixed p \<and>
            (left_click \<and> right_click \<and> \<not> fixed p \<and> d < MOUSE_TEAR_SIZE\<^sup>2 \<longrightarrow>
               x q = mx \<and> y q = my \<and> connections q = [])"
  using assms
  by (simp add: Curtain_interact_with_mouse_def nth_for_each_point interact_point_def Let_def
      MOUSE_INFLUENCE_SIZE_def MOUSE_TEAR_SIZE_def)

text \<open>A free point at \<open>(3, 4)\<close>, pointer at the origin, both buttons down.\<close>

theorem interact_with_mouse_point_witness:
  "(0::nat) < length [(PointMass_init 3 4 False)\<lparr>connections := [(0, 10, 0.5)]\<rparr>] \<and>
   x (points (Curtain_interact_with_mouse (0, 0) True True
        \<lparr>points = [(PointMass_init 3 4 False)\<lparr>connections := [(0, 10, 0.5)]\<rparr>],
         width = 0, height = 0, resting_distance = 10\<rparr>) ! 0) = 0 \<and>
   y (points (Curtain_interact_with_mouse (0, 0) True True
        \<lparr>points = [(PointMass_init 3 4 False)\<lparr>connections := [(0, 10, 0.5)]\<rparr>],
         width = 0, height = 0, resting_distance = 10\<rparr>) ! 0) = 0 \<and>
   connections (points (Curtain_interact_with_mouse (0, 0) True True
        \<lparr>points = [(PointMass_init 3 4 False)\<lparr>connections := [(0, 10, 0.5)]\<rparr>],
         width = 0, height = 0, resting_distance = 10\<rparr>) ! 0) = []"
  using interact_with_mouse_point [of 0
      "\<lparr>points = [(PointMass_init 3 4 False)\<lparr>connections := [(0, 10, 0.5)]\<rparr>],
        width = 0, height = 0, resting_distance = 10\<rparr>" 0 0 True True]
  by (simp add: PointMass_init_def Let_def MOUSE_INFLUENCE_SIZE_def MOUSE_TEAR_SIZE_def)

text \<open>
  C10. A drag writes \<open>x\<close> and \<open>y\<close> only: \<open>prev_x\<close> and \<open>prev_y\<close> keep their
  values. The next \<open>update\<close> of the dragged free point therefore takes the whole
  displacement from the old previous position to the pointer as its velocity and
  moves the point beyond the pointer by it (plus gravity).
\<close>

theorem drag_keeps_previous_position:
  assumes "i < length (points c)"
    and "\<not> fixed (points c ! i)"
    and "(x (points c ! i) - mx)\<^sup>2 + (y (points c ! i) - my)\<^sup>2 < MOUSE_INFLUENCE_SIZE\<^sup>2"
  shows "let p = points c ! i;
             q = points (Curtain_interact_with_mouse (mx, my) True right_click c) ! i
         in x q = mx \<and> y q = my \<and> prev_x q = prev_x p \<and> prev_y q = prev_y p \<and>
            x (PointMass_update dt q) = mx + (mx - prev_x p) \<and>
            y (PointMass_update dt q) = my + ((my - prev_y p) + GRAVITY * dt * dt)"
  using assms
  by (simp add: Curtain_interact_with_mouse_def nth_for_each_point interact_point_def Let_def
      PointMass_update_def)

text \<open>
  A point at rest at \<open>(100, 100)\<close> dragged to \<open>(110, 100)\<close>: the next update
  (here with \<open>dt = 0\<close>) carries it on to \<open>(120, 100)\<close>.
\<close>

theorem drag_keeps_previous_position_witness:
  "\<not> fixed (PointMass_init 100 100 False) \<and>
   (x (PointMass_init 100 100 False) - 110)\<^sup>2 + (y (PointMass_init 100 100 False) - 100)\<^sup>2
     < MOUSE_INFLUENCE_SIZE\<^sup>2 \<and>
   prev_x (points (Curtain_interact_with_mouse (110, 100) True False
        \<lparr>points = [PointMass_init 100 100 False], width = 0, height = 0,
         resting_distance = 10\<rparr>) ! 0) = 100 \<and>
   x (PointMass_update 0 (points (Curtain_interact_with_mouse (110, 100) True False
        \<lparr>points = [PointMass_init 100 100 False], width = 0, height = 0,
         resting_distance = 10\<rparr>) ! 0)) = 120 \<and>
   y (PointMass_update 0 (points (Curtain_interact_with_mouse (110, 100) True False
        \<lparr>points = [PointMass_init 100 100 False], width = 0, height = 0,
         resting_distance = 10\<rparr>) ! 0)) = 100"
  using drag_keeps_previous_position [of 0
      "\<lparr>points = [PointMass_init 100 100 False], width = 0, height = 0,
        resting_distance = 10\<rparr>" 110 100 False 0]
  by (simp add: PointMass_init_def Let_def MOUSE_INFLUENCE_SIZE_def)

subsection \<open>Constraint relaxation: what one connection does\<close>

lemma length_solve_connection [simp]:
  "length (solve_connection self c ps) = length ps"
  by (simp add: solve_connection_def Let_def split: prod.splits)

lemma solve_connection_fixed_nth:
  "fixed (ps ! k) \<Longrightarrow> k < length ps \<Longrightarrow> solve_connection self c ps ! k = ps ! k"
  by (cases "self < length ps")
     (auto simp add: solve_connection_def Let_def nth_update_any split: prod.splits)

lemma length_fold_solve_connection [simp]:
  "length (fold (solve_connection self) cs ps) = length ps"
  by (induction cs arbitrary: ps) simp_all

lemma fold_solve_connection_fixed_nth:
  "fixed (ps ! k) \<Longrightarrow> k < length ps \<Longrightarrow> fold (solve_connection self) cs ps ! k = ps ! k"
  by (induction cs arbitrary: ps) (simp_all add: solve_connection_fixed_nth)

lemma length_solve_constraints [simp]:
  "length (PointMass_solve_constraints self ps) = length ps"
  by (simp add: PointMass_solve_constraints_def)

lemma solve_constraints_fixed_nth:
  "fixed (ps ! k) \<Longrightarrow> k < length ps \<Longrightarrow> PointMass_solve_constraints self ps ! k = ps ! k"
  by (simp add: PointMass_solve_constraints_def fold_solve_connection_fixed_nth)

lemma length_fold_solve_constraints [simp]:
  "length (fold PointMass_solve_constraints is ps) = length ps"
  by (induction "is" arbitrary: ps) simp_all

lemma fold_solve_constraints_fixed_nth:
  "fixed (ps ! k) \<Longrightarrow> k < length ps \<Longrightarrow> fold PointMass_solve_constraints is ps ! k = ps ! k"
  by (induction "is" arbitrary: ps) (simp_all add: solve_constraints_fixed_nth)

lemma length_solve_all [simp]: "length (solve_all ps) = length ps"
  by (simp add: solve_all_def)

lemma solve_all_fixed_nth:
  "fixed (ps ! k) \<Longrightarrow> k < length ps \<Longrightarrow> solve_all ps ! k = ps ! k"
  by (simp add: solve_all_def fold_solve_constraints_fixed_nth)

lemma length_passes [simp]: "length (fold (\<lambda>_. solve_all) ns ps) = length ps"
  by (induction ns arbitrary: ps) simp_all

lemma passes_fixed_nth:
  "fixed (ps ! k) \<Longrightarrow> k < length ps \<Longrightarrow> fold (\<lambda>_. solve_all) ns ps ! k = ps ! k"
  by (induction ns arbitrary: ps) (simp_all add: solve_all_fixed_nth)

lemma update_fixed: "fixed p \<Longrightarrow> PointMass_update dt p = p"
  by (simp add: PointMass_update_def)

lemma Curtain_update_fixed_nth:
  assumes "k < length (points c)" and "fixed (points c ! k)"
  shows "points (Curtain_update dt c) ! k = points c ! k"
proof -
  let ?ps1 = "for_each_point (PointMass_update dt) (points c)"
  have 1: "?ps1 ! k = points c ! k"
    using assms by (simp add: nth_for_each_point update_fixed)
  have "fold (\<lambda>_. solve_all) [0..<5] ?ps1 ! k = ?ps1 ! k"
    using assms 1 by (intro passes_fixed_nth) simp_all
  with 1 show ?thesis
    by (simp add: Curtain_update_def Let_def)
qed

text \<open>
  C1. A fixed point keeps its position through \<open>update\<close> and through
  \<open>solve_constraints\<close>, whether the latter is called on the point itself or on
  any other point of the store (which may hold a connection to it); hence also
  through a whole \<open>Curtain.update\<close>.
\<close>

theorem fixed_point_invariance:
  assumes "k < length ps" and "fixed (ps ! k)"
  shows "x (PointMass_update dt (ps ! k)) = x (ps ! k) \<and>
         y (PointMass_update dt (ps ! k)) = y (ps ! k) \<and>
         x (PointMass_solve_constraints self ps ! k) = x (ps ! k) \<and>
         y (PointMass_solve_constraints self ps ! k) = y (ps ! k) \<and>
         x (points (Curtain_update dt (c\<lparr>points := ps\<rparr>)) ! k) = x (ps ! k) \<and>
         y (points (Curtain_update dt (c\<lparr>points := ps\<rparr>)) ! k) = y (ps ! k)"
  using assms Curtain_update_fixed_nth [of k "c\<lparr>points := ps\<rparr>" dt]
  by (simp add: update_fixed solve_constraints_fixed_nth)

text \<open>
  A fixed point at the origin and a free point 20 below it, linked with resting
  distance 10: solving the free point's connection leaves the fixed one in place.
\<close>

theorem fixed_point_invariance_witness:
  "(0::nat) < length [PointMass_init 0 0 True,
                      (PointMass_init 0 20 False)\<lparr>connections := [(0, 10, 0.5)]\<rparr>] \<and>
   fixed ([PointMass_init 0 0 True,
           (PointMass_init 0 20 False)\<lparr>connections := [(0, 10, 0.5)]\<rparr>] ! 0) \<and>
   x (PointMass_solve_constraints 1
        [PointMass_init 0 0 True,
         (PointMass_init 0 20 False)\<lparr>connections := [(0, 10, 0.5)]\<rparr>] ! 0) = 0 \<and>
   y (PointMass_solve_constraints 1
        [PointMass_init 0 0 True,
         (PointMass_init 0 20 False)\<lparr>connections := [(0, 10, 0.5)]\<rparr>] ! 0) = 0"
  using fixed_point_invariance [of 0
      "[PointMass_init 0 0 True,
        (PointMass_init 0 20 False)\<lparr>connections := [(0, 10, 0.5)]\<rparr>]" 0 1]
  by (simp add: PointMass_init_def)

text \<open>Coincident points: the connection is skipped.\<close>

lemma solve_connection_coincident:
  "point_distance ps self other = 0 \<Longrightarrow> solve_connection self (other, rd, st) ps = ps"
  by (simp add: solve_connection_def point_distance_def)

lemma distance_self: "point_distance ps i i = 0"
  by (simp add: point_distance_def)

text \<open>
  Points a positive distance apart are distinct store entries, so the two writes of
  the loop body do not interfere.
\<close>

lemma solve_connection_nth:
  assumes "self < length ps" and "other < length ps"
    and "point_distance ps self other \<noteq> 0"
  shows "solve_connection self (other, rd, st) ps ! k =
     (let dx = x (ps ! other) - x (ps ! self);
          dy = y (ps ! other) - y (ps ! self);
          correction = (rd - point_distance ps self other) / point_distance ps self other * 0.5 * st
      in if k = self \<and> \<not> fixed (ps ! self)
         then (ps ! self)\<lparr>x := x (ps ! self) - correction * dx,
                           y := y (ps ! self) - correction * dy\<rparr>
         else if k = other \<and> \<not> fixed (ps ! other)
         then (ps ! other)\<lparr>x := x (ps ! other) + correction * dx,
                            y := y (ps ! other) + correction * dy\<rparr>
         else ps ! k)"
proof -
  have ne: "self \<noteq> other"
    using assms(3) distance_self by auto
  show ?thesis
    using assms ne
    by (auto simp add: solve_connection_def point_distance_def Let_def nth_update_any)
qed

lemma sqrt_400: "sqrt 400 = 20"
  by (rule real_sqrt_unique) simp_all

text \<open>
  C3. One connection \<open>(other, rd, st)\<close> of the point \<open>self\<close>: at distance zero the
  store is left as it is; otherwise, with \<open>correction = (rd - distance) / distance *
  0.5 * st\<close>, \<open>self\<close> moves by \<open>- correction * (dx, dy)\<close> unless it is fixed,
  \<open>other\<close> moves by \<open>+ correction * (dx, dy)\<close> unless it is fixed, and no other
  point changes. \<open>solve_constraints\<close> does this for the connections in order, each on
  the store the earlier ones have left.
\<close>

theorem solve_constraints_connection:
  assumes "self < length ps" and "other < length ps"
  shows "let dx = x (ps ! other) - x (ps ! self);
             dy = y (ps ! other) - y (ps ! self);
             distance = sqrt (dx\<^sup>2 + dy\<^sup>2);
             correction = (rd - distance) / distance * 0.5 * st;
             qs = solve_connection self (other, rd, st) ps
         in (distance = 0 \<longrightarrow> qs = ps) \<and>
            (distance \<noteq> 0 \<longrightarrow>
               qs ! self =
                 (if fixed (ps ! self) then ps ! self
                  else (ps ! self)\<lparr>x := x (ps ! self) - correction * dx,
                                    y := y (ps ! self) - correction * dy\<rparr>) \<and>
               qs ! other =
                 (if fixed (ps ! other) then ps ! other
                  else (ps ! other)\<lparr>x := x (ps ! other) + correction * dx,
                                     y := y (ps ! other) + correction * dy\<rparr>) \<and>
               (\<forall>k. k \<noteq> self \<and> k \<noteq> other \<longrightarrow> qs ! k = ps ! k)) \<and>
            length qs = length ps \<and>
            (connections (ps ! self) = [] \<longrightarrow> PointMass_solve_constraints self ps = ps) \<and>
            (\<forall>cs. connections (ps ! self) = (other, rd, st) # cs \<longrightarrow>
               PointMass_solve_constraints self ps = fold (solve_connection self) cs qs)"
proof -
  let ?d = "point_distance ps self other"
  have zero: "?d = 0 \<Longrightarrow> solve_connection self (other, rd, st) ps = ps"
    by (rule solve_connection_coincident)
  have ne: "self \<noteq> other" if "?d \<noteq> 0"
    using that distance_self by auto
  have nth: "?d \<noteq> 0 \<Longrightarrow> solve_connection self (other, rd, st) ps ! k =
     (let dx = x (ps ! other) - x (ps ! self);
          dy = y (ps ! other) - y (ps ! self);
          correction = (rd - ?d) / ?d * 0.5 * st
      in if k = self \<and> \<not> fixed (ps ! self)
         then (ps ! self)\<lparr>x := x (ps ! self) - correction * dx,
                           y := y (ps ! self) - correction * dy\<rparr>
         else if k = other \<and> \<not> fixed (ps ! other)
         then (ps ! other)\<lparr>x := x (ps ! other) + correction * dx,
                            y := y (ps ! other) + correction * dy\<rparr>
         else ps ! k)" for k
    using assms by (rule solve_connection_nth)
  show ?thesis
    unfolding Let_def
    apply (fold point_distance_def)
    apply (intro conjI impI allI)
    subgoal by (rule zero)
    subgoal using ne by (simp add: nth Let_def)
    subgoal using ne by (auto simp add: nth Let_def)
    subgoal by (simp add: nth Let_def)
    subgoal by simp
    subgoal by (simp add: PointMass_solve_constraints_def)
    subgoal by (simp add: PointMass_solve_constraints_def)
    done
qed

text \<open>
  Two free points 20 apart, resting distance 10, stiffness 0.5: the correction is
  \<open>- 0.125\<close>, and each point moves 2.5 towards the other.
\<close>

theorem solve_constraints_connection_witness:
  "(0::nat) < length [(PointMass_init 0 0 False)\<lparr>connections := [(1, 10, 0.5)]\<rparr>,
                      PointMass_init 0 20 False] \<and>
   (1::nat) < length [(PointMass_init 0 0 False)\<lparr>connections := [(1, 10, 0.5)]\<rparr>,
                      PointMass_init 0 20 False] \<and>
   y (PointMass_solve_constraints 0
        [(PointMass_init 0 0 False)\<lparr>connections := [(1, 10, 0.5)]\<rparr>,
         PointMass_init 0 20 False] ! 0) = 2.5 \<and>
   y (PointMass_solve_constraints 0
        [(PointMass_init 0 0 False)\<lparr>connections := [(1, 10, 0.5)]\<rparr>,
         PointMass_init 0 20 False] ! 1) = 17.5"
  using solve_constraints_connection [of 0
      "[(PointMass_init 0 0 False)\<lparr>connections := [(1, 10, 0.5)]\<rparr>,
        PointMass_init 0 20 False]" 1 10 "0.5"]
  by (simp add: PointMass_init_def Let_def sqrt_400)

subsection \<open>Constraint relaxation: convergence of a single connection\<close>

lemma scaled_distance:
  "sqrt ((k * a)\<^sup>2 + (k * b)\<^sup>2) = \<bar>k\<bar> * sqrt (a\<^sup>2 + b\<^sup>2)"
proof -
  have "(k * a)\<^sup>2 + (k * b)\<^sup>2 = k\<^sup>2 * (a\<^sup>2 + b\<^sup>2)"
    by (simp add: power_mult_distrib distrib_left)
  then show ?thesis
    by (simp add: real_sqrt_mult)
qed

lemma relaxed_distance:
  fixes d rd st :: real
  assumes "0 < d" and "0 \<le> rd" and "0 < st" and "st \<le> 1"
  shows "\<bar>1 + 2 * ((rd - d) / d * 0.5 * st)\<bar> * d = (1 - st) * d + st * rd"
proof -
  have "1 + 2 * ((rd - d) / d * 0.5 * st) = ((1 - st) * d + st * rd) / d"
    using assms(1) by (simp add: field_simps)
  moreover have "0 \<le> (1 - st) * d + st * rd"
    using assms by simp
  ultimately show ?thesis
    using assms(1) by simp
qed

text \<open>
  C9. A point \<open>self\<close> with a single connection to \<open>other\<close>, both free and a
  non-zero distance \<open>d\<close> apart, resting distance \<open>rd\<close> (not negative, as a
  distance) and stiffness \<open>st\<close> in \<open>(0, 1]\<close>. One call of \<open>solve_constraints\<close>
  on \<open>self\<close> scales the deviation \<open>\<bar>d - rd\<bar>\<close> by \<open>1 - st\<close>: it never grows, and it
  shrinks strictly while \<open>d\<close> differs from \<open>rd\<close>. The call leaves the connection, the
  two flags and (for positive \<open>rd\<close>) the non-zero distance in place, so the same
  holds for the next call.
\<close>

theorem single_constraint_contraction:
  assumes "self < length ps" and "other < length ps"
    and "connections (ps ! self) = [(other, rd, st)]"
    and "\<not> fixed (ps ! self)" and "\<not> fixed (ps ! other)"
    and "0 \<le> rd" and "0 < st" and "st \<le> 1"
    and "point_distance ps self other \<noteq> 0"
  shows "let d = point_distance ps self other;
             qs = PointMass_solve_constraints self ps;
             d' = point_distance qs self other
         in \<bar>d' - rd\<bar> = (1 - st) * \<bar>d - rd\<bar> \<and>
            \<bar>d' - rd\<bar> \<le> \<bar>d - rd\<bar> \<and>
            (d \<noteq> rd \<longrightarrow> \<bar>d' - rd\<bar> < \<bar>d - rd\<bar>) \<and>
            length qs = length ps \<and>
            connections (qs ! self) = [(other, rd, st)] \<and>
            \<not> fixed (qs ! self) \<and> \<not> fixed (qs ! other) \<and>
            (0 < rd \<longrightarrow> d' \<noteq> 0)"
proof -
  let ?d = "point_distance ps self other"
  let ?c = "(rd - ?d) / ?d * 0.5 * st"
  let ?dx = "x (ps ! other) - x (ps ! self)"
  let ?dy = "y (ps ! other) - y (ps ! self)"
  let ?qs = "PointMass_solve_constraints self ps"
  have ne: "self \<noteq> other"
    using assms(9) distance_self by auto
  have dpos: "0 < ?d"
    using assms(9) by (simp add: point_distance_def less_le)
  have qs: "?qs = solve_connection self (other, rd, st) ps"
    using assms(3) by (simp add: PointMass_solve_constraints_def)
  define c where "c = ?c"
  have qself: "?qs ! self = (ps ! self)\<lparr>x := x (ps ! self) - c * ?dx,
                                         y := y (ps ! self) - c * ?dy\<rparr>"
    using assms by (simp add: qs solve_connection_nth Let_def c_def)
  have qother: "?qs ! other = (ps ! other)\<lparr>x := x (ps ! other) + c * ?dx,
                                           y := y (ps ! other) + c * ?dy\<rparr>"
    using assms ne by (simp add: qs solve_connection_nth Let_def c_def)
  have "x (?qs ! other) - x (?qs ! self) = (1 + 2 * c) * ?dx"
    and "y (?qs ! other) - y (?qs ! self) = (1 + 2 * c) * ?dy"
    by (simp_all add: qself qother algebra_simps)
  then have "point_distance ?qs self other = \<bar>1 + 2 * c\<bar> * ?d"
    by (simp only: point_distance_def scaled_distance)
  also have "\<dots> = \<bar>1 + 2 * ?c\<bar> * ?d"
    by (simp only: c_def)
  also have "\<dots> = (1 - st) * ?d + st * rd"
    using dpos assms(6-8) by (rule relaxed_distance)
  finally have new: "point_distance ?qs self other = (1 - st) * ?d + st * rd" .
  then have d': "point_distance ?qs self other - rd = (1 - st) * (?d - rd)"
    by (simp add: algebra_simps)
  have eq: "\<bar>point_distance ?qs self other - rd\<bar> = (1 - st) * \<bar>?d - rd\<bar>"
    using assms(8) by (simp add: d' abs_mult)
  have "(1 - st) * \<bar>?d - rd\<bar> \<le> 1 * \<bar>?d - rd\<bar>"
    using assms(7) by (intro mult_right_mono) simp_all
  then have le: "(1 - st) * \<bar>?d - rd\<bar> \<le> \<bar>?d - rd\<bar>"
    by simp
  have less: "(1 - st) * \<bar>?d - rd\<bar> < \<bar>?d - rd\<bar>" if "?d \<noteq> rd"
  proof -
    have "(1 - st) * \<bar>?d - rd\<bar> < 1 * \<bar>?d - rd\<bar>"
      using assms(7) that by (intro mult_strict_right_mono) simp_all
    then show ?thesis by simp
  qed
  have apart: "point_distance ?qs self other \<noteq> 0" if "0 < rd"
  proof -
    have "0 \<le> (1 - st) * ?d"
      using dpos assms(8) by simp
    moreover have "0 < st * rd"
      using that assms(7) by simp
    ultimately show ?thesis
      unfolding new by linarith
  qed
  have frame: "connections (?qs ! self) = [(other, rd, st)]"
    "\<not> fixed (?qs ! self)" "\<not> fixed (?qs ! other)"
    using assms(3-5) by (simp_all add: qself qother)
  show ?thesis
    using eq le less apart frame by (simp add: Let_def)
qed

text \<open>
  Two free points 20 apart with resting distance 10 and stiffness 0.5: the
  deviation goes from 10 to 5.
\<close>

theorem single_constraint_contraction_witness:
  "connections ([(PointMass_init 0 0 False)\<lparr>connections := [(1, 10, 0.5)]\<rparr>,
                 PointMass_init 0 20 False] ! 0) = [(1, 10, 0.5)] \<and>
   point_distance [(PointMass_init 0 0 False)\<lparr>connections := [(1, 10, 0.5)]\<rparr>,
                   PointMass_init 0 20 False] 0 1 = 20 \<and>
   \<bar>point_distance (PointMass_solve_constraints 0
        [(PointMass_init 0 0 False)\<lparr>connections := [(1, 10, 0.5)]\<rparr>,
         PointMass_init 0 20 False]) 0 1 - 10\<bar> = 5"
  using single_constraint_contraction [of 0
      "[(PointMass_init 0 0 False)\<lparr>connections := [(1, 10, 0.5)]\<rparr>,
        PointMass_init 0 20 False]" 1 10 "0.5"]
  by (simp add: PointMass_init_def Let_def point_distance_def [of "[a, b]" for a b] sqrt_400)

subsection \<open>Curtain construction\<close>

text \<open>\<open>range(n + 1)\<close> enumerated by natural numbers.\<close>

lemma upto_from_zero: "[0..int n - 1] = map int [0..<n]"
proof (induction n)
  case 0
  then show ?case by simp
next
  case (Suc n)
  have "[0..int (Suc n) - 1] = [0..int n - 1] @ [int n]"
    using upto_rec2 [of 0 "int n"] by simp
  with Suc show ?case by simp
qed

lemma py_range: "[0..w] = map int [0..<nat (w + 1)]"
proof (cases "0 \<le> w")
  case True
  then show ?thesis
    using upto_from_zero [of "nat (w + 1)"] by simp
next
  case False
  then show ?thesis by simp
qed

lemma for_each_append:
  "for_each (as @ bs) body s =
     (case for_each as body s of Inl e \<Rightarrow> Inl e | Inr s' \<Rightarrow> for_each bs body s')"
  by (induction as arbitrary: s) (simp_all split: sum.splits)

lemma create_point_step:
  assumes "k < nat (w + 1)" and "length qs = r * nat (w + 1) + k"
  shows "create_point w rd start_y (int r) (int k) qs
           = Inr (qs @ [grid_point w rd start_y (int r) (int k)])"
proof -
  let ?W = "nat (w + 1)"
  have w1: "0 < w + 1"
    using assms(1) by linarith
  have W: "int ?W = w + 1"
    using w1 by simp
  have rw: "0 \<le> int r * (w + 1)"
    using w1 by simp
  let ?p0 = "PointMass_init (of_int (int k) * rd) (start_y + of_int (int r) * rd) (int r = 0)"
  let ?ps1 = "qs @ [?p0]"
  define p1 where "p1 = (if 0 < k
      then ?p0\<lparr>connections := [(lattice_index w (int r) (int k - 1), rd, STIFFNESS)]\<rparr>
      else ?p0)"
  have left: "py_index (length ?ps1) (- 2) = Inr (lattice_index w (int r) (int k - 1))" if "0 < k"
  proof -
    have "int (length ?ps1) + (- 2) = int r * (w + 1) + (int k - 1)"
      using assms(2) W by (simp add: algebra_simps)
    moreover have "0 \<le> int r * (w + 1) + (int k - 1)"
      using that rw by linarith
    ultimately show ?thesis
      by (simp add: py_index_def lattice_index_def)
  qed
  have step1: "(if int k > 0
               then (case py_index (length ?ps1) (- 2) of
                       Inl e \<Rightarrow> Inl e
                     | Inr left_point \<Rightarrow>
                         Inr (PointMass_attach_to (length qs) left_point rd STIFFNESS ?ps1))
               else Inr ?ps1) = Inr (qs @ [p1])"
    using left by (simp add: p1_def PointMass_attach_to_def PointMass_init_def)
  have top: "py_index (length (qs @ [p1])) (- (w + 2)) = Inr (lattice_index w (int r - 1) (int k))"
    if "0 < r"
  proof -
    have "int (length (qs @ [p1])) + (- (w + 2)) = (int r - 1) * (w + 1) + int k"
      using assms(2) W by (simp add: algebra_simps)
    moreover have "0 \<le> (int r - 1) * (w + 1)"
      using that w1 by (intro mult_nonneg_nonneg) simp_all
    then have "0 \<le> (int r - 1) * (w + 1) + int k"
      by linarith
    moreover have "- (w + 2) < 0"
      using w1 by linarith
    ultimately show ?thesis
      by (simp add: py_index_def lattice_index_def)
  qed
  have step2: "(if int r > 0
              then (case py_index (length (qs @ [p1])) (- (w + 2)) of
                      Inl e \<Rightarrow> Inl e
                    | Inr top_point \<Rightarrow>
                        Inr (PointMass_attach_to (length qs) top_point rd STIFFNESS (qs @ [p1])))
              else Inr (qs @ [p1])) = Inr (qs @ [grid_point w rd start_y (int r) (int k)])"
    using top
    by (simp add: p1_def PointMass_attach_to_def PointMass_init_def grid_point_def)
  show ?thesis
    unfolding create_point_def Let_def step1
    using step2 by simp
qed

lemma create_row_prefix:
  assumes "k \<le> nat (w + 1)" and "length qs = r * nat (w + 1)"
  shows "for_each (map int [0..<k]) (\<lambda>col. create_point w rd start_y (int r) col) qs
           = Inr (qs @ map (\<lambda>c. grid_point w rd start_y (int r) (int c)) [0..<k])"
  using assms(1)
proof (induction k)
  case 0
  then show ?case by simp
next
  case (Suc k)
  then have k: "k < nat (w + 1)" by simp
  let ?row = "map (\<lambda>c. grid_point w rd start_y (int r) (int c)) [0..<k]"
  have "length (qs @ ?row) = r * nat (w + 1) + k"
    using assms(2) by simp
  with k have "create_point w rd start_y (int r) (int k) (qs @ ?row)
                 = Inr ((qs @ ?row) @ [grid_point w rd start_y (int r) (int k)])"
    by (rule create_point_step)
  with Suc k show ?case
    by (simp add: for_each_append)
qed

lemma lattice_next_row:
  "lattice w rd start_y (Suc r * nat (w + 1))
     = lattice w rd start_y (r * nat (w + 1))
       @ map (\<lambda>c. grid_point w rd start_y (int r) (int c)) [0..<nat (w + 1)]"
proof -
  let ?W = "nat (w + 1)"
  let ?g = "\<lambda>i. grid_point w rd start_y (int (i div ?W)) (int (i mod ?W))"
  have "[0..<Suc r * ?W] = [0..<r * ?W] @ [r * ?W..<?W + r * ?W]"
    using upt_add_eq_append [of 0 "r * ?W" ?W] by (simp add: add.commute)
  also have "[r * ?W..<?W + r * ?W] = map (\<lambda>c. c + r * ?W) [0..<?W]"
    by (simp only: map_add_upt)
  finally have "map ?g [0..<Suc r * ?W]
      = map ?g [0..<r * ?W] @ map (\<lambda>c. ?g (c + r * ?W)) [0..<?W]"
    by (simp add: comp_def)
  moreover have "map (\<lambda>c. ?g (c + r * ?W)) [0..<?W]
      = map (\<lambda>c. grid_point w rd start_y (int r) (int c)) [0..<?W]"
    by (rule map_cong) simp_all
  ultimately show ?thesis
    by (simp only: lattice_def)
qed

lemma create_rows_prefix:
  "for_each (map int [0..<j])
     (\<lambda>row. for_each [0..w] (\<lambda>col. create_point w rd start_y row col)) []
   = Inr (lattice w rd start_y (j * nat (w + 1)))"
proof (induction j)
  case 0
  then show ?case by (simp add: lattice_def)
next
  case (Suc j)
  have len: "length (lattice w rd start_y (j * nat (w + 1))) = j * nat (w + 1)"
    by (simp add: lattice_def)
  have "for_each [0..w] (\<lambda>col. create_point w rd start_y (int j) col)
          (lattice w rd start_y (j * nat (w + 1)))
        = Inr (lattice w rd start_y (Suc j * nat (w + 1)))"
    unfolding py_range [of w] lattice_next_row
    using len by (intro create_row_prefix) simp_all
  with Suc show ?case
    by (simp add: for_each_append)
qed

lemma Curtain_init_lattice:
  "Curtain_init w h start_y rd =
     Inr \<lparr>points = lattice w rd start_y (nat (h + 1) * nat (w + 1)),
          width = w, height = h, resting_distance = rd\<rparr>"
  by (simp add: Curtain_init_def Curtain_create_points_def py_range [of h] create_rows_prefix)

lemma lattice_nth:
  assumes "0 \<le> row" and "0 \<le> col" and "col \<le> w" and "lattice_index w row col < n"
  shows "lattice w rd start_y n ! lattice_index w row col = grid_point w rd start_y row col"
proof -
  let ?W = "nat (w + 1)"
  have idx: "lattice_index w row col = nat row * ?W + nat col"
    using assms(1-3) by (simp add: lattice_index_def nat_add_distrib nat_mult_distrib)
  have col: "nat col < ?W"
    using assms(2,3) by simp
  have "(nat row * ?W + nat col) div ?W = nat row"
    and "(nat row * ?W + nat col) mod ?W = nat col"
    using col by simp_all
  then show ?thesis
    using assms by (simp add: lattice_def idx)
qed


text \<open>
  C4. For lattice counts \<open>w\<close> and \<open>h\<close> that are not negative, construction
  succeeds with \<open>(w + 1) * (h + 1)\<close> points in row-major order. The point at
  \<open>(col, row)\<close> lies at \<open>x = col * rd\<close>, \<open>y = start_y + row * rd\<close>; it is fixed
  exactly in row 0; its connections are the one to its left neighbour when
  \<open>col > 0\<close>, followed by the one to the point above when \<open>row > 0\<close>, both with
  resting distance \<open>rd\<close> and stiffness \<open>STIFFNESS\<close>.
\<close>

theorem create_points_lattice:
  assumes "0 \<le> w" and "0 \<le> h"
  shows "\<exists>c. Curtain_init w h start_y rd = Inr c \<and>
           int (length (points c)) = (w + 1) * (h + 1) \<and>
           (\<forall>row col. 0 \<le> row \<and> row \<le> h \<and> 0 \<le> col \<and> col \<le> w \<longrightarrow>
              (let p = points c ! lattice_index w row col
               in x p = of_int col * rd \<and>
                  y p = start_y + of_int row * rd \<and>
                  fixed p = (row = 0) \<and>
                  connections p =
                    (if col > 0 then [(lattice_index w row (col - 1), rd, STIFFNESS)] else []) @
                    (if row > 0 then [(lattice_index w (row - 1) col, rd, STIFFNESS)] else [])))"
proof -
  let ?n = "nat (h + 1) * nat (w + 1)"
  let ?c = "\<lparr>points = lattice w rd start_y ?n, width = w, height = h, resting_distance = rd\<rparr>"
  have count: "int (length (points ?c)) = (w + 1) * (h + 1)"
    using assms by (simp add: lattice_def nat_mult_distrib [symmetric])
  have pt: "lattice w rd start_y ?n ! lattice_index w row col = grid_point w rd start_y row col"
    if "0 \<le> row" "row \<le> h" "0 \<le> col" "col \<le> w" for row col
  proof -
    have "row * (w + 1) + col < (h + 1) * (w + 1)"
    proof -
      have "row * (w + 1) + col < row * (w + 1) + (w + 1)"
        using that by simp
      also have "\<dots> = (row + 1) * (w + 1)"
        by (simp add: algebra_simps)
      also have "\<dots> \<le> (h + 1) * (w + 1)"
        using that assms by (intro mult_right_mono) simp_all
      finally show ?thesis .
    qed
    then have "lattice_index w row col < ?n"
      using assms that by (simp add: lattice_index_def nat_mult_distrib [symmetric] nat_less_iff)
    with that show ?thesis
      by (simp add: lattice_nth)
  qed
  show ?thesis
    apply (rule exI [of _ ?c])
    apply (intro conjI allI impI)
    subgoal by (rule Curtain_init_lattice)
    subgoal by (rule count)
    subgoal for row col by (simp add: pt Let_def grid_point_def)
    done
qed


text \<open>
  The 2 by 2 grid of the specification's scenario (9 points, resting distance 10,
  \<open>start_y = 0\<close>): its centre point has index 4, lies at \<open>(10, 10)\<close>, is free and
  is linked to points 3 (left) and 1 (above).
\<close>

theorem create_points_lattice_witness:
  "(0::int) \<le> 2 \<and>
   (\<exists>c. Curtain_init 2 2 0 10 = Inr c \<and>
        length (points c) = 9 \<and>
        x (points c ! 4) = 10 \<and> y (points c ! 4) = 10 \<and> \<not> fixed (points c ! 4) \<and>
        connections (points c ! 4) = [(3, 10, 0.5), (1, 10, 0.5)] \<and>
        fixed (points c ! 2) \<and> connections (points c ! 2) = [(1, 10, 0.5)])"
proof -
  from create_points_lattice [of 2 2 0 10]
  obtain c where c: "Curtain_init 2 2 0 10 = Inr c"
    and n: "int (length (points c)) = (2 + 1) * (2 + 1)"
    and pts: "\<forall>row col. 0 \<le> row \<and> row \<le> 2 \<and> 0 \<le> col \<and> col \<le> 2 \<longrightarrow>
              (let p = points c ! lattice_index 2 row col
               in x p = of_int col * 10 \<and>
                  y p = 0 + of_int row * 10 \<and>
                  fixed p = (row = 0) \<and>
                  connections p =
                    (if col > 0 then [(lattice_index 2 row (col - 1), 10, STIFFNESS)] else []) @
                    (if row > 0 then [(lattice_index 2 (row - 1) col, 10, STIFFNESS)] else []))"
    by auto
  from n have len: "length (points c) = 9"
    by simp
  from pts [rule_format, of 1 1]
  have centre: "x (points c ! 4) = 10 \<and> y (points c ! 4) = 10 \<and> \<not> fixed (points c ! 4) \<and>
        connections (points c ! 4) = [(3, 10, 0.5), (1, 10, 0.5)]"
    by (simp add: lattice_index_def Let_def STIFFNESS_def)
  from pts [rule_format, of 0 2]
  have corner: "fixed (points c ! 2) \<and> connections (points c ! 2) = [(1, 10, 0.5)]"
    by (simp add: lattice_index_def Let_def STIFFNESS_def)
  from c len centre corner show ?thesis
    by simp
qed

text \<open>The grid point at store index \<open>i\<close>, in terms of the index alone.\<close>

lemma lattice_point_nth:
  assumes "i < n" and "0 < nat (w + 1)"
  shows "lattice w rd start_y n ! i =
     \<lparr>x = of_nat (i mod nat (w + 1)) * rd,
      y = start_y + of_nat (i div nat (w + 1)) * rd,
      prev_x = of_nat (i mod nat (w + 1)) * rd,
      prev_y = start_y + of_nat (i div nat (w + 1)) * rd,
      fixed = (i div nat (w + 1) = 0),
      connections =
        (if 0 < i mod nat (w + 1) then [(i - 1, rd, STIFFNESS)] else []) @
        (if 0 < i div nat (w + 1) then [(i - nat (w + 1), rd, STIFFNESS)] else [])\<rparr>"
proof -
  define W where "W = nat (w + 1)"
  have W: "w + 1 = int W"
    using assms(2) by (simp add: W_def)
  have "i = i div W * W + i mod W"
    by simp
  then have "int i = int (i div W * W + i mod W)"
    by (rule arg_cong)
  then have split: "int i = int (i div W) * int W + int (i mod W)"
    by (simp only: of_nat_add of_nat_mult)
  have left: "lattice_index w (int (i div W)) (int (i mod W) - 1) = i - 1"
  proof -
    have "int (i div W) * (w + 1) + (int (i mod W) - 1) = int i - 1"
      unfolding W using split by simp
    then show ?thesis
      by (simp add: lattice_index_def)
  qed
  have top: "lattice_index w (int (i div W) - 1) (int (i mod W)) = i - W"
  proof -
    have "(int (i div W) - 1) * (w + 1) + int (i mod W) = int i - int W"
      unfolding W using split by (simp add: algebra_simps)
    then show ?thesis
      by (simp add: lattice_index_def)
  qed
  have "lattice w rd start_y n ! i = grid_point w rd start_y (int (i div W)) (int (i mod W))"
    using assms(1) by (simp add: lattice_def W_def)
  also have "\<dots> =
     \<lparr>x = of_nat (i mod W) * rd,
      y = start_y + of_nat (i div W) * rd,
      prev_x = of_nat (i mod W) * rd,
      prev_y = start_y + of_nat (i div W) * rd,
      fixed = (i div W = 0),
      connections =
        (if 0 < i mod W then [(i - 1, rd, STIFFNESS)] else []) @
        (if 0 < i div W then [(i - W, rd, STIFFNESS)] else [])\<rparr>"
    by (simp only: grid_point_def left top) simp
  finally show ?thesis
    unfolding W_def .
qed

text \<open>
  C8 (as the code has it). \<open>Curtain.__init__\<close> checks none of its arguments, and the
  two subscripts of \<open>create_points\<close> always fall inside the list: construction
  returns a curtain for every width, height, start and resting distance, with
  \<open>nat (w + 1) * nat (h + 1)\<close> points. A dimension below zero gives a curtain without
  points; width and height zero give the single fixed point \<open>(0, start_y)\<close>. The
  point at index \<open>i\<close> lies at \<open>x = (i mod (w + 1)) * rd\<close>,
  \<open>y = start_y + (i div (w + 1)) * rd\<close> whatever the sign of \<open>rd\<close>, is fixed
  exactly in row 0 and has its left and top links. So a resting distance of zero
  puts every point on \<open>(0, start_y)\<close>, and a negative one puts every point at
  \<open>x \<le> 0\<close>, \<open>y \<le> start_y\<close>: the lattice mirrored.
\<close>

theorem Curtain_init_never_raises:
  "\<exists>c. Curtain_init w h start_y rd = Inr c \<and>
        width c = w \<and> height c = h \<and> resting_distance c = rd \<and>
        length (points c) = nat (w + 1) * nat (h + 1) \<and>
        (w < 0 \<or> h < 0 \<longrightarrow> points c = []) \<and>
        (w = 0 \<and> h = 0 \<longrightarrow> points c = [PointMass_init 0 start_y True]) \<and>
        (\<forall>i < length (points c).
           points c ! i =
             \<lparr>x = of_nat (i mod nat (w + 1)) * rd,
              y = start_y + of_nat (i div nat (w + 1)) * rd,
              prev_x = of_nat (i mod nat (w + 1)) * rd,
              prev_y = start_y + of_nat (i div nat (w + 1)) * rd,
              fixed = (i div nat (w + 1) = 0),
              connections =
                (if 0 < i mod nat (w + 1) then [(i - 1, rd, STIFFNESS)] else []) @
                (if 0 < i div nat (w + 1) then [(i - nat (w + 1), rd, STIFFNESS)] else [])\<rparr>) \<and>
        (rd = 0 \<longrightarrow>
           (\<forall>i < length (points c). x (points c ! i) = 0 \<and> y (points c ! i) = start_y)) \<and>
        (rd < 0 \<longrightarrow>
           (\<forall>i < length (points c). x (points c ! i) \<le> 0 \<and> y (points c ! i) \<le> start_y))"
proof -
  let ?n = "nat (h + 1) * nat (w + 1)"
  let ?ps = "lattice w rd start_y ?n"
  let ?c = "\<lparr>points = ?ps, width = w, height = h, resting_distance = rd\<rparr>"
  have len: "length ?ps = ?n"
    by (simp add: lattice_def)
  have empty: "?ps = []" if "w < 0 \<or> h < 0"
    using that by (auto simp add: lattice_def)
  have single: "?ps = [PointMass_init 0 start_y True]" if "w = 0 \<and> h = 0"
    using that by (simp add: lattice_def grid_point_def PointMass_init_def)
  have pt: "?ps ! i =
             \<lparr>x = of_nat (i mod nat (w + 1)) * rd,
              y = start_y + of_nat (i div nat (w + 1)) * rd,
              prev_x = of_nat (i mod nat (w + 1)) * rd,
              prev_y = start_y + of_nat (i div nat (w + 1)) * rd,
              fixed = (i div nat (w + 1) = 0),
              connections =
                (if 0 < i mod nat (w + 1) then [(i - 1, rd, STIFFNESS)] else []) @
                (if 0 < i div nat (w + 1) then [(i - nat (w + 1), rd, STIFFNESS)] else [])\<rparr>"
    if "i < ?n" for i
  proof -
    from that have "0 < nat (w + 1)"
      by (cases "nat (w + 1)") simp_all
    with that show ?thesis
      by (rule lattice_point_nth)
  qed
  have zero: "x (?ps ! i) = 0 \<and> y (?ps ! i) = start_y" if "rd = 0" "i < ?n" for i
    using that pt [of i] by simp
  have neg: "x (?ps ! i) \<le> 0 \<and> y (?ps ! i) \<le> start_y" if "rd < 0" "i < ?n" for i
    using that pt [of i] by (simp add: mult_nonneg_nonpos)
  have all_pt: "\<forall>i < length ?ps. ?ps ! i =
             \<lparr>x = of_nat (i mod nat (w + 1)) * rd,
              y = start_y + of_nat (i div nat (w + 1)) * rd,
              prev_x = of_nat (i mod nat (w + 1)) * rd,
              prev_y = start_y + of_nat (i div nat (w + 1)) * rd,
              fixed = (i div nat (w + 1) = 0),
              connections =
                (if 0 < i mod nat (w + 1) then [(i - 1, rd, STIFFNESS)] else []) @
                (if 0 < i div nat (w + 1) then [(i - nat (w + 1), rd, STIFFNESS)] else [])\<rparr>"
    unfolding len using pt by blast
  have all_zero: "rd = 0 \<longrightarrow> (\<forall>i < length ?ps. x (?ps ! i) = 0 \<and> y (?ps ! i) = start_y)"
    unfolding len using zero by blast
  have all_neg: "rd < 0 \<longrightarrow> (\<forall>i < length ?ps. x (?ps ! i) \<le> 0 \<and> y (?ps ! i) \<le> start_y)"
    unfolding len using neg by blast
  define c where "c = ?c"
  have pc: "points c = ?ps" and wc: "width c = w" and hc: "height c = h"
    and rc: "resting_distance c = rd"
    by (simp_all add: c_def)
  have "Curtain_init w h start_y rd = Inr c"
    unfolding c_def by (rule Curtain_init_lattice)
  moreover have "length (points c) = nat (w + 1) * nat (h + 1)"
    unfolding pc len by (rule mult.commute)
  moreover have "w < 0 \<or> h < 0 \<longrightarrow> points c = []"
    unfolding pc using empty by blast
  moreover have "w = 0 \<and> h = 0 \<longrightarrow> points c = [PointMass_init 0 start_y True]"
    unfolding pc using single by blast
  ultimately show ?thesis
    using wc hc rc all_pt [folded pc] all_zero [folded pc] all_neg [folded pc]
    by blast
qed

text \<open>
  A row of two points with resting distance \<open>- 10\<close>: the second point lies at
  \<open>(- 10, 50)\<close>, left of the first, and is linked to it with resting distance
  \<open>- 10\<close>.
\<close>

theorem Curtain_init_never_raises_witness:
  "(1::nat) < 2 \<and> (- 10::real) < 0 \<and>
   (\<exists>c. Curtain_init 1 0 50 (- 10) = Inr c \<and>
        length (points c) = 2 \<and>
        x (points c ! 1) = - 10 \<and> y (points c ! 1) = 50 \<and> fixed (points c ! 1) \<and>
        connections (points c ! 1) = [(0, - 10, 0.5)])"
proof -
  from Curtain_init_never_raises [of 1 0 50 "- 10"]
  obtain c where c: "Curtain_init 1 0 50 (- 10) = Inr c"
    and n: "length (points c) = nat (1 + 1) * nat (0 + 1)"
    and pts: "\<forall>i < length (points c).
           points c ! i =
             \<lparr>x = of_nat (i mod nat (1 + 1)) * (- 10),
              y = 50 + of_nat (i div nat (1 + 1)) * (- 10),
              prev_x = of_nat (i mod nat (1 + 1)) * (- 10),
              prev_y = 50 + of_nat (i div nat (1 + 1)) * (- 10),
              fixed = (i div nat (1 + 1) = 0),
              connections =
                (if 0 < i mod nat (1 + 1) then [(i - 1, - 10, STIFFNESS)] else []) @
                (if 0 < i div nat (1 + 1) then [(i - nat (1 + 1), - 10, STIFFNESS)] else [])\<rparr>"
    by blast
  from n have len: "length (points c) = 2"
    by simp
  from pts [rule_format, of 1] len
  have "points c ! 1 = \<lparr>x = - 10, y = 50, prev_x = - 10, prev_y = 50, fixed = True,
                        connections = [(0, - 10, 0.5)]\<rparr>"
    by (simp add: STIFFNESS_def)
  with c len show ?thesis
    by simp
qed

text \<open>
  No configuration error at misconfigured inputs. Resting distance zero: two
  coincident points. Resting distance \<open>- 10\<close>: the second point mirrored to
  \<open>x = - 10\<close>. Negative dimensions: no points. Zero dimensions: one point.
\<close>

theorem Curtain_init_misconfigured_counterexample:
  "Curtain_init 1 0 50 0 =
     Inr \<lparr>points = [\<lparr>x = 0, y = 50, prev_x = 0, prev_y = 50, fixed = True, connections = []\<rparr>,
                    \<lparr>x = 0, y = 50, prev_x = 0, prev_y = 50, fixed = True,
                     connections = [(0, 0, 0.5)]\<rparr>],
          width = 1, height = 0, resting_distance = 0\<rparr> \<and>
   Curtain_init 1 0 50 (- 10) =
     Inr \<lparr>points = [\<lparr>x = 0, y = 50, prev_x = 0, prev_y = 50, fixed = True, connections = []\<rparr>,
                    \<lparr>x = - 10, y = 50, prev_x = - 10, prev_y = 50, fixed = True,
                     connections = [(0, - 10, 0.5)]\<rparr>],
          width = 1, height = 0, resting_distance = - 10\<rparr> \<and>
   Curtain_init (- 1) (- 1) 50 (- 10) =
     Inr \<lparr>points = [], width = - 1, height = - 1, resting_distance = - 10\<rparr> \<and>
   Curtain_init 0 0 50 10 =
     Inr \<lparr>points = [\<lparr>x = 0, y = 50, prev_x = 0, prev_y = 50, fixed = True, connections = []\<rparr>],
          width = 0, height = 0, resting_distance = 10\<rparr>"
  by (simp add: Curtain_init_lattice lattice_def grid_point_def lattice_index_def STIFFNESS_def
      upt_rec)

subsection \<open>The grid update\<close>

lemma relax_from_fold:
  "relax_from n i ps = fold PointMass_solve_constraints [i..<i + n] ps"
proof (induction n arbitrary: i ps)
  case 0
  then show ?case by simp
next
  case (Suc n)
  have "[i..<i + Suc n] = i # [Suc i..<Suc i + n]"
    by (simp add: upt_conv_Cons)
  with Suc show ?case by simp
qed

lemma solve_all_relaxation_pass: "solve_all ps = relaxation_pass ps"
  by (simp add: solve_all_def relaxation_pass_def relax_from_fold)

lemma five_passes:
  "fold (\<lambda>_. f) [0..<5] ps = f (f (f (f (f ps))))"
  by (simp add: upt_rec)


text \<open>
  C5. \<open>Curtain.update\<close> integrates every point once and then runs five relaxation
  passes, each calling \<open>solve_constraints\<close> on the points in list (row-major)
  order; nothing else of the curtain changes.
\<close>

theorem Curtain_update_phases:
  "points (Curtain_update dt c) =
     relaxation_pass (relaxation_pass (relaxation_pass (relaxation_pass (relaxation_pass
       (integrate_all dt (points c)))))) \<and>
   length (points (Curtain_update dt c)) = length (points c) \<and>
   width (Curtain_update dt c) = width c \<and>
   height (Curtain_update dt c) = height c \<and>
   resting_distance (Curtain_update dt c) = resting_distance c"
  by (simp add: Curtain_update_def Let_def five_passes for_each_point_map
      integrate_all_def solve_all_relaxation_pass [abs_def, symmetric])

end
